theory Spec2Isabelle
  imports Complex_Main "HOL-Library.AList" "HOL-Library.Sublist"
begin

section \<open>Signal engine: blend and recommendation (agent.py)\<close>

text \<open>
  Python floats are modelled by the real numbers they denote; rounding of the
  floating-point operations is not modelled. \<open>analyze\<close> is given the scalars that
  lines 51--91 of agent.py extract from the price history and the news feed:
  the last jointly valid pair of moving averages (\<open>None\<close> when \<open>tail.empty\<close>), the last
  valid RSI value (\<open>None\<close> for NaN), the last valid momentum value and the raw sentiment.
  The rationale string of the result is left out.
\<close>

datatype recommendation = BUY | HOLD | SELL

record signals =
  momentum :: real
  rsi :: real
  trend :: real
  sentiment :: real
  overall :: real

record AnalysisResult =
  symbol :: string
  signals :: signals
  sentiment_compound :: real
  recommendation :: recommendation
  confidence :: real

definition recommend :: "real \<Rightarrow> recommendation" where
  "recommend ov = (if ov > 0.60 then BUY else (if ov > 0.40 then HOLD else SELL))"

definition analyze ::
  "string \<Rightarrow> (real \<times> real) option \<Rightarrow> real option \<Rightarrow> real \<Rightarrow> real \<Rightarrow> AnalysisResult" where
  "analyze sy tail rsi_val mom_val sent_raw =
    (let trend_val = (case tail of None \<Rightarrow> 0.0
                      | Some (fast_last, slow_last) \<Rightarrow> if fast_last > slow_last then 1.0 else 0.0);
         mom_score = (tanh (mom_val * 3.0) + 1.0) / 2.0;
         rsi_score = (case rsi_val of None \<Rightarrow> 0.5
                      | Some v \<Rightarrow> if v \<ge> 70 then 0.2 else if v \<le> 30 then 0.8 else 0.5);
         sent_score = (sent_raw + 1.0) / 2.0;
         ov = 0.45 * mom_score + 0.20 * rsi_score + 0.15 * trend_val + 0.20 * sent_score
     in \<lparr> symbol = sy,
          signals = \<lparr> momentum = mom_score, rsi = rsi_score, trend = trend_val,
                      sentiment = sent_score, overall = ov \<rparr>,
          sentiment_compound = sent_raw,
          recommendation = recommend ov,
          confidence = ov \<rparr>)"

section \<open>Errors\<close>

text \<open>
  Every exception that the modelled code lets escape is a value; the constructor is the
  Python exception class, the message is left out.
\<close>

datatype error = ValueError | TypeError | AttributeError | NameError | OverflowError

definition bind_err :: "error + 'a \<Rightarrow> ('a \<Rightarrow> error + 'b) \<Rightarrow> error + 'b" where
  "bind_err m f = (case m of Inl e \<Rightarrow> Inl e | Inr x \<Rightarrow> f x)"

section \<open>Strategy backtester (indicators.py, utils.py, backtest.py)\<close>

text \<open>
  A cleaned price series (the result of \<open>_to_1d_series\<close>: one-dimensional, numeric, NaN
  dropped) is a list of reals in time order. A pandas series that may hold NaN is a list
  of \<open>real option\<close>, \<open>None\<close> for NaN. The model follows pandas on series of positive
  prices, where no division by zero occurs.
\<close>

text \<open>\<open>series.rolling(window, min_periods=window).mean()\<close>: the mean of the last
  \<open>window\<close> values once that many are there, NaN before; an empty window has no mean;
  pandas refuses a negative window with a ValueError.\<close>

definition rolling_mean :: "real list \<Rightarrow> nat \<Rightarrow> nat \<Rightarrow> real option" where
  "rolling_mean series w i =
     (if w = 0 \<or> i + 1 < w then None
      else Some (sum_list (take w (drop (i + 1 - w) series)) / real w))"

definition sma :: "real list \<Rightarrow> int \<Rightarrow> error + real option list" where
  "sma series window =
     (if window < 0 then Inl ValueError
      else Inr (map (rolling_mean series (nat window)) [0..<length series]))"

text \<open>\<open>fast_sma > slow_sma\<close>: a comparison with NaN is false.\<close>

definition gt_nan :: "real option \<Rightarrow> real option \<Rightarrow> bool" where
  "gt_nan a b = (case (a, b) of (Some x, Some y) \<Rightarrow> x > y | _ \<Rightarrow> False)"

text \<open>\<open>.shift(1).reindex(prices.index).fillna(0)\<close>: every value moves one period later,
  the first period gets 0.\<close>

definition shift_fill :: "real list \<Rightarrow> real list" where
  "shift_fill xs = (case xs of [] \<Rightarrow> [] | _ # _ \<Rightarrow> 0 # butlast xs)"

definition position_signal :: "real option list \<Rightarrow> real option list \<Rightarrow> real list" where
  "position_signal fast_sma slow_sma =
     shift_fill (map2 (\<lambda>a b. if gt_nan a b then 1 else 0) fast_sma slow_sma)"

text \<open>\<open>prices.pct_change().fillna(0.0)\<close>.\<close>

fun pct_from :: "real \<Rightarrow> real list \<Rightarrow> real list" where
  "pct_from prev [] = []"
| "pct_from prev (p # ps) = (p / prev - 1) # pct_from p ps"

definition pct_change_fill :: "real list \<Rightarrow> real list" where
  "pct_change_fill prices = (case prices of [] \<Rightarrow> [] | p # ps \<Rightarrow> 0 # pct_from p ps)"

fun cumprod_from :: "real \<Rightarrow> real list \<Rightarrow> real list" where
  "cumprod_from acc [] = []"
| "cumprod_from acc (x # xs) = (acc * x) # cumprod_from (acc * x) xs"

definition cumprod :: "real list \<Rightarrow> real list" where
  "cumprod xs = cumprod_from 1 xs"

fun cummax_from :: "real \<Rightarrow> real list \<Rightarrow> real list" where
  "cummax_from m [] = []"
| "cummax_from m (x # xs) = max m x # cummax_from (max m x) xs"

definition cummax :: "real list \<Rightarrow> real list" where
  "cummax xs = (case xs of [] \<Rightarrow> [] | x # rest \<Rightarrow> x # cummax_from x rest)"

definition list_max :: "real list \<Rightarrow> real" where
  "list_max xs = fold max (tl xs) (hd xs)"

definition mean :: "real list \<Rightarrow> real" where
  "mean xs = sum_list xs / real (length xs)"

text \<open>\<open>std(ddof=0)\<close>: the population standard deviation.\<close>

definition std0 :: "real list \<Rightarrow> real" where
  "std0 xs = sqrt (mean (map (\<lambda>x. (x - mean xs)\<^sup>2) xs))"

definition clip01 :: "real \<Rightarrow> real" where
  "clip01 x = min 1 (max 0 x)"

definition max_drawdown :: "real list \<Rightarrow> real" where
  "max_drawdown e =
     (if e = [] then 0.0
      else let peak = cummax e;
               dd = map2 (\<lambda>pk v. (pk - v) / pk) peak e
           in list_max (map clip01 dd))"

definition cagr :: "real list \<Rightarrow> real" where
  "cagr e =
     (if e = [] \<or> hd e \<le> 0 then 0.0
      else let years = real (length e) / 252 in
           if years \<le> 0 then 0.0
           else let total = last e / hd e in
                if total \<le> 0 then 0.0 else total powr (1 / years) - 1)"

definition sharpe :: "real list \<Rightarrow> real" where
  "sharpe r =
     (if r = [] \<or> std0 r = 0 then 0.0
      else let excess = map (\<lambda>x. x - 0.0 / 252) r
           in sqrt 252 * (mean excess / (std0 excess + 1 / 10 ^ 12)))"

record metrics =
  CAGR :: real
  Sharpe :: real
  MaxDrawdown :: real
  WinRate :: real

record BacktestResult =
  equity :: "real list"
  returns :: "real list"
  metrics :: metrics

text \<open>\<open>fast\<close> and \<open>slow\<close> are Python ints, so the \<open>isinstance\<close> test passes; the two
  remaining guards and the exceptions of the two rolling means are the error branches.\<close>

definition backtest_sma_cross :: "real list \<Rightarrow> int \<Rightarrow> int \<Rightarrow> error + BacktestResult" where
  "backtest_sma_cross prices fast slow =
     (if fast \<ge> slow then Inl ValueError
      else let need = max slow fast + 5 in
      if int (length prices) < need then Inl ValueError
      else
        bind_err (sma prices fast) (\<lambda>fast_sma.
        bind_err (sma prices slow) (\<lambda>slow_sma.
          let signal = position_signal fast_sma slow_sma;
              daily_ret = pct_change_fill prices;
              strat_ret = map2 (*) daily_ret signal;
              equity = cumprod (map (\<lambda>r. 1.0 + r) strat_ret)
          in Inr \<lparr> equity = equity, returns = strat_ret,
                    metrics = \<lparr> CAGR = cagr equity,
                                Sharpe = sharpe strat_ret,
                                MaxDrawdown = max_drawdown equity,
                                WinRate = mean (map (\<lambda>r. if r > 0 then 1 else 0) strat_ret) \<rparr> \<rparr>)))"

section \<open>Parameter optimizer (backtest.py)\<close>

record Row =
  fast :: int
  slow :: int
  IS :: metrics
  OS :: metrics

record OptResult =
  split :: real
  bars_total :: int
  bars_is :: int
  bars_os :: int
  best :: Row
  leaderboard :: "Row list"

text \<open>\<open>int(x)\<close> on a float truncates towards zero.\<close>

definition int_of_float :: "real \<Rightarrow> int" where
  "int_of_float x = (if x \<ge> 0 then \<lfloor>x\<rfloor> else \<lceil>x\<rceil>)"






section \<open>Batch screening (agent.py, \<open>MarketAgent.screen\<close>)\<close>

text \<open>
  \<open>screen\<close> calls \<open>self.analyze\<close> for every symbol; the call, with its data access, is the
  parameter \<open>an\<close>, which returns an analysis or the exception it raised. The handler
  \<open>except Exception:\<close> binds no name, and its body evaluates \<open>str(e)\<close>: the name \<open>e\<close> is
  bound nowhere in agent.py, so the handler itself raises NameError, which leaves the
  loop and the function.
\<close>

record ScreenItem =
  item_symbol :: string
  item_recommendation :: recommendation
  item_confidence :: real
  item_signals :: signals

record ScreenResult =
  results :: "ScreenItem list"
  errors :: "(string \<times> string) list"

fun screen_loop ::
  "(string \<Rightarrow> error + AnalysisResult) \<Rightarrow> string list \<Rightarrow> ScreenItem list
     \<Rightarrow> (string \<times> string) list \<Rightarrow> error + ScreenItem list \<times> (string \<times> string) list" where
  "screen_loop an [] res errs = Inr (res, errs)"
| "screen_loop an (s # ss) res errs =
     (case an s of
        Inr r \<Rightarrow>
          screen_loop an ss
            (res @ [\<lparr> item_symbol = symbol r, item_recommendation = recommendation r,
                       item_confidence = confidence r, item_signals = signals r \<rparr>]) errs
      | Inl exn \<Rightarrow> Inl NameError)"

definition screen ::
  "(string \<Rightarrow> int \<Rightarrow> error + AnalysisResult) \<Rightarrow> string list \<Rightarrow> int \<Rightarrow> error + ScreenResult" where
  "screen an symbols days =
     bind_err (screen_loop (\<lambda>s. an s days) symbols [] []) (\<lambda>(res, errs).
       Inr \<lparr> results = sort_key (\<lambda>x. - item_confidence x) res, errors = errs \<rparr>)"

section \<open>JSON values and the Python builtins the agent applies to them\<close>

text \<open>
  The planner's output and the memory file are parsed by \<open>json.loads\<close>: a value is
  \<open>None\<close>, a bool, an int, a float (finite, or one of the three special values that
  \<open>json.loads\<close> accepts), a string, a list, or a dict with string keys. A dict is an
  association list read with \<open>map_of\<close>. A finite float is the real it denotes. Strings
  are ASCII.
\<close>

datatype pyfloat = Fin real | PosInf | NegInf | NaN

datatype json =
    JNull
  | JBool bool
  | JInt int
  | JFloat pyfloat
  | JStr string
  | JList "json list"
  | JDict "(string \<times> json) list"

text \<open>
  Builtins whose results on some arguments are not modelled are parameters: the
  serialisation \<open>json.dumps(x, sort_keys=True)\<close>, \<open>str(x)\<close> of a float, list or dict, and
  \<open>float(s)\<close> of a string (\<open>None\<close> when it raises ValueError). Every theorem below holds
  for all values of these parameters.
\<close>

record builtins =
  json_dumps :: "json \<Rightarrow> string"
  py_repr :: "json \<Rightarrow> string"
  float_of_str :: "string \<Rightarrow> pyfloat option"

text \<open>Truth value of an object, and \<open>a or b\<close>.\<close>

definition py_truthy :: "json \<Rightarrow> bool" where
  "py_truthy v =
     (case v of
        JNull \<Rightarrow> False
      | JBool b \<Rightarrow> b
      | JInt i \<Rightarrow> i \<noteq> 0
      | JFloat f \<Rightarrow> f \<noteq> Fin 0
      | JStr s \<Rightarrow> s \<noteq> []
      | JList xs \<Rightarrow> xs \<noteq> []
      | JDict d \<Rightarrow> d \<noteq> [])"

definition py_or :: "json \<Rightarrow> json \<Rightarrow> json" where
  "py_or a b = (if py_truthy a then a else b)"

text \<open>\<open>d.get(k)\<close> and \<open>d.get(k, default)\<close>.\<close>

definition dict_get :: "(string \<times> json) list \<Rightarrow> string \<Rightarrow> json" where
  "dict_get d k = (case map_of d k of None \<Rightarrow> JNull | Some v \<Rightarrow> v)"

definition dict_get_default :: "(string \<times> json) list \<Rightarrow> string \<Rightarrow> json \<Rightarrow> json" where
  "dict_get_default d k dflt = (case map_of d k of None \<Rightarrow> dflt | Some v \<Rightarrow> v)"

text \<open>Iteration (\<open>for x in v\<close>, \<open>list(v)\<close>): a list gives its elements, a string its
  characters, a dict its keys; anything else is not iterable.\<close>

definition py_iter :: "json \<Rightarrow> error + json list" where
  "py_iter v =
     (case v of
        JList xs \<Rightarrow> Inr xs
      | JStr s \<Rightarrow> Inr (map (\<lambda>c. JStr [c]) s)
      | JDict d \<Rightarrow> Inr (map (\<lambda>kv. JStr (fst kv)) d)
      | _ \<Rightarrow> Inl TypeError)"

text \<open>\<open>dict(v)\<close>: a dict is copied; a sequence must consist of two-element sequences with
  hashable first elements, later entries replacing earlier ones. Entries under keys
  that are not strings are left out: \<open>_validate_plan\<close> reads \<open>args\<close> by string keys only.\<close>

definition pair_of_elem :: "json \<Rightarrow> error + json \<times> json" where
  "pair_of_elem x =
     (case py_iter x of
        Inl e \<Rightarrow> Inl TypeError
      | Inr [k, v] \<Rightarrow> Inr (k, v)
      | Inr _ \<Rightarrow> Inl ValueError)"

fun dict_of_seq :: "json list \<Rightarrow> (string \<times> json) list \<Rightarrow> error + (string \<times> json) list" where
  "dict_of_seq [] acc = Inr acc"
| "dict_of_seq (x # xs) acc =
     (case pair_of_elem x of
        Inl e \<Rightarrow> Inl e
      | Inr (k, v) \<Rightarrow>
          (case k of
             JStr ks \<Rightarrow> dict_of_seq xs (AList.update ks v acc)
           | JList _ \<Rightarrow> Inl TypeError
           | JDict _ \<Rightarrow> Inl TypeError
           | _ \<Rightarrow> dict_of_seq xs acc))"

definition py_dict :: "json \<Rightarrow> error + (string \<times> json) list" where
  "py_dict v =
     (case v of
        JDict d \<Rightarrow> Inr d
      | JList xs \<Rightarrow> dict_of_seq xs []
      | JStr s \<Rightarrow> (if s = [] then Inr [] else Inl ValueError)
      | _ \<Rightarrow> Inl TypeError)"

text \<open>\<open>s.strip()\<close> and \<open>s.upper()\<close> on ASCII strings.\<close>

definition is_space :: "char \<Rightarrow> bool" where
  "is_space c = ((of_char c :: nat) \<in> {9, 10, 11, 12, 13, 28, 29, 30, 31, 32})"

definition py_strip :: "string \<Rightarrow> string" where
  "py_strip s = rev (dropWhile is_space (rev (dropWhile is_space s)))"

definition upper_char :: "char \<Rightarrow> char" where
  "upper_char c =
     (case map_of (zip ''abcdefghijklmnopqrstuvwxyz'' ''ABCDEFGHIJKLMNOPQRSTUVWXYZ'') c of
        Some u \<Rightarrow> u
      | None \<Rightarrow> c)"

definition py_upper :: "string \<Rightarrow> string" where
  "py_upper s = map upper_char s"

text \<open>\<open>int(s)\<close> of a string, base 10: surrounding whitespace, an optional sign, digits
  with single underscores between them. CPython's limit on the number of digits is
  not modelled.\<close>

definition is_digit :: "char \<Rightarrow> bool" where
  "is_digit c = (48 \<le> (of_char c :: nat) \<and> (of_char c :: nat) \<le> 57)"

fun digits_ok :: "string \<Rightarrow> bool" where
  "digits_ok [] = False"
| "digits_ok [c] = is_digit c"
| "digits_ok (c # d # cs) =
     (is_digit c \<and> (if d = CHR ''_'' then digits_ok cs else digits_ok (d # cs)))"

definition digits_value :: "string \<Rightarrow> int" where
  "digits_value s = foldl (\<lambda>acc c. acc * 10 + (int (of_char c) - 48)) 0 (filter is_digit s)"

definition int_of_str :: "string \<Rightarrow> int option" where
  "int_of_str s =
     (let t = py_strip s;
          (neg, body) = (case t of
                           c # cs \<Rightarrow> if c = CHR ''-'' then (True, cs)
                                      else if c = CHR ''+'' then (False, cs) else (False, t)
                         | [] \<Rightarrow> (False, t))
      in if digits_ok body then Some (if neg then - digits_value body else digits_value body)
         else None)"

text \<open>\<open>int(v)\<close>: a float is truncated towards zero, NaN and the infinities raise.\<close>

definition py_int :: "json \<Rightarrow> error + int" where
  "py_int v =
     (case v of
        JInt i \<Rightarrow> Inr i
      | JBool b \<Rightarrow> Inr (if b then 1 else 0)
      | JFloat f \<Rightarrow>
          (case f of Fin r \<Rightarrow> Inr (int_of_float r)
                   | NaN \<Rightarrow> Inl ValueError
                   | _ \<Rightarrow> Inl OverflowError)
      | JStr s \<Rightarrow> (case int_of_str s of None \<Rightarrow> Inl ValueError | Some i \<Rightarrow> Inr i)
      | _ \<Rightarrow> Inl TypeError)"

text \<open>\<open>float(v)\<close>: an int whose magnitude rounds to \<open>2^1024\<close> or more overflows; an int in
  range is read as the real it denotes.\<close>

definition py_float :: "builtins \<Rightarrow> json \<Rightarrow> error + pyfloat" where
  "py_float B v =
     (case v of
        JFloat f \<Rightarrow> Inr f
      | JInt i \<Rightarrow> (if \<bar>i\<bar> \<ge> 2 ^ 1024 - 2 ^ 970 then Inl OverflowError else Inr (Fin (real_of_int i)))
      | JBool b \<Rightarrow> Inr (Fin (if b then 1 else 0))
      | JStr s \<Rightarrow> (case float_of_str B s of None \<Rightarrow> Inl ValueError | Some f \<Rightarrow> Inr f)
      | _ \<Rightarrow> Inl TypeError)"

text \<open>Comparison of floats (false whenever NaN is involved) and the two-argument
  \<open>min(a, b)\<close> and \<open>max(a, b)\<close>, which return \<open>a\<close> unless \<open>b\<close> is strictly smaller
  (larger).\<close>

fun f_lt :: "pyfloat \<Rightarrow> pyfloat \<Rightarrow> bool" where
  "f_lt NaN _ = False"
| "f_lt _ NaN = False"
| "f_lt (Fin a) (Fin b) = (a < b)"
| "f_lt (Fin a) PosInf = True"
| "f_lt (Fin a) NegInf = False"
| "f_lt NegInf (Fin b) = True"
| "f_lt NegInf PosInf = True"
| "f_lt NegInf NegInf = False"
| "f_lt PosInf _ = False"

definition f_min :: "pyfloat \<Rightarrow> pyfloat \<Rightarrow> pyfloat" where
  "f_min a b = (if f_lt b a then b else a)"

definition f_max :: "pyfloat \<Rightarrow> pyfloat \<Rightarrow> pyfloat" where
  "f_max a b = (if f_lt a b then b else a)"

text \<open>\<open>round(x, 2)\<close>: the nearest multiple of 0.01, a tie going to the even one.\<close>

definition round_half_even :: "real \<Rightarrow> int" where
  "round_half_even x =
     (let f = \<lfloor>x\<rfloor>; d = x - of_int f
      in if d < 1 / 2 then f else if d > 1 / 2 then f + 1 else if even f then f else f + 1)"

definition round2 :: "pyfloat \<Rightarrow> pyfloat" where
  "round2 x = (case x of Fin r \<Rightarrow> Fin (of_int (round_half_even (r * 100)) / 100) | _ \<Rightarrow> x)"

text \<open>\<open>str(v)\<close>.\<close>

definition digit_char :: "nat \<Rightarrow> char" where
  "digit_char n = ''0123456789'' ! n"

function digits_of_nat :: "nat \<Rightarrow> string" where
  "digits_of_nat n =
     (if n < 10 then [digit_char n]
      else digits_of_nat (n div 10) @ [digit_char (n mod 10)])"
  by pat_completeness auto
termination
  by (relation "measure id") auto

definition str_of_int :: "int \<Rightarrow> string" where
  "str_of_int i = (if i < 0 then CHR ''-'' # digits_of_nat (nat (- i)) else digits_of_nat (nat i))"

definition py_str :: "builtins \<Rightarrow> json \<Rightarrow> string" where
  "py_str B v =
     (case v of
        JStr s \<Rightarrow> s
      | JNull \<Rightarrow> ''None''
      | JBool b \<Rightarrow> (if b then ''True'' else ''False'')
      | JInt i \<Rightarrow> str_of_int i
      | _ \<Rightarrow> py_repr B v)"

section \<open>Run memory (agentic/memory.py)\<close>

text \<open>
  The memory file is the list of its parsed records, oldest first. \<open>recent(n)\<close> is the
  slice \<open>lines[-n:]\<close>.
\<close>

definition recent :: "int \<Rightarrow> json list \<Rightarrow> json list" where
  "recent n recs =
     (if n > 0 then drop (length recs - nat n) recs else drop (nat (- n)) recs)"

text \<open>The loop of \<open>last_best_params\<close> over \<open>reversed(self.recent(50))\<close>.\<close>

fun scan_params :: "string \<Rightarrow> json list \<Rightarrow> error + (int \<times> int) option" where
  "scan_params sy [] = Inr None"
| "scan_params sy (r # rs) =
     (case r of
        JDict rd \<Rightarrow>
          if dict_get rd ''top_pick'' = JStr sy then
            (let bp = dict_get rd ''best_params'' in
             if \<not> py_truthy bp then scan_params sy rs
             else (case bp of
                     JDict bd \<Rightarrow>
                       if py_truthy (dict_get bd ''fast'') \<and> py_truthy (dict_get bd ''slow'')
                       then bind_err (py_int (dict_get bd ''fast'')) (\<lambda>f.
                            bind_err (py_int (dict_get bd ''slow'')) (\<lambda>s. Inr (Some (f, s))))
                       else scan_params sy rs
                   | _ \<Rightarrow> Inl AttributeError))
          else scan_params sy rs
      | _ \<Rightarrow> Inl AttributeError)"

definition last_best_params :: "json list \<Rightarrow> string \<Rightarrow> error + (int \<times> int) option" where
  "last_best_params mem sy = scan_params sy (rev (recent 50 mem))"

text \<open>
  The amended claim in the words of the specification: newest first, the first record
  of the recent ones whose top pick is the symbol and whose best parameters hold a
  non-zero fast and a non-zero slow value gives the pair.
\<close>

definition record_params :: "string \<Rightarrow> json \<Rightarrow> (int \<times> int) option" where
  "record_params sy r =
     (case r of
        JDict rd \<Rightarrow>
          (case (map_of rd ''top_pick'', map_of rd ''best_params'') of
             (Some (JStr t), Some (JDict bd)) \<Rightarrow>
               (case (map_of bd ''fast'', map_of bd ''slow'') of
                  (Some (JInt f), Some (JInt s)) \<Rightarrow>
                    if t = sy \<and> f \<noteq> 0 \<and> s \<noteq> 0 then Some (f, s) else None
                | _ \<Rightarrow> None)
           | _ \<Rightarrow> None)
      | _ \<Rightarrow> None)"

definition spec_last_best_params :: "json list \<Rightarrow> string \<Rightarrow> (int \<times> int) option" where
  "spec_last_best_params mem sy =
     (case List.map_filter (record_params sy) (rev (recent 50 mem)) of
        [] \<Rightarrow> None
      | p # _ \<Rightarrow> Some p)"

text \<open>A record as \<open>run_once\<close> writes it: an object whose \<open>best_params\<close> is absent, null
  or an object whose \<open>fast\<close> and \<open>slow\<close> are absent, null or integers.\<close>

definition int_or_null :: "json option \<Rightarrow> bool" where
  "int_or_null v = (case v of None \<Rightarrow> True | Some JNull \<Rightarrow> True | Some (JInt _) \<Rightarrow> True | _ \<Rightarrow> False)"

definition memory_record_ok :: "json \<Rightarrow> bool" where
  "memory_record_ok r =
     (case r of
        JDict rd \<Rightarrow>
          (case map_of rd ''best_params'' of
             None \<Rightarrow> True
           | Some JNull \<Rightarrow> True
           | Some (JDict bd) \<Rightarrow> int_or_null (map_of bd ''fast'') \<and> int_or_null (map_of bd ''slow'')
           | _ \<Rightarrow> False)
      | _ \<Rightarrow> False)"

section \<open>Plan validator (agentic/agent_loop.py, \<open>_validate_plan\<close>)\<close>

definition ALLOWED_TOOLS :: "string set" where
  "ALLOWED_TOOLS = {''screen'', ''analyze'', ''optimize_backtest'', ''backtest''}"

definition MAX_PLAN_STEPS :: nat where
  "MAX_PLAN_STEPS = 6"

type_synonym step = "string \<times> (string \<times> json) list"

text \<open>The four branches of the sanitation; \<open>None\<close> is a step that is dropped
  (\<open>continue\<close>), \<open>Inl\<close> an exception of a conversion.\<close>

definition sanitize_screen :: "builtins \<Rightarrow> (string \<times> json) list \<Rightarrow> error + (string \<times> json) list option" where
  "sanitize_screen B args =
     bind_err (py_iter (py_or (dict_get args ''symbols'') (JList []))) (\<lambda>xs.
     let symbols = take 50 (map (\<lambda>x. py_upper (py_str B x)) xs) in
     bind_err (py_int (dict_get_default args ''days'' (JInt 365))) (\<lambda>days.
     let days = max 60 (min days 2000) in
     Inr (Some [(''symbols'', JList (map JStr symbols)), (''days'', JInt days)])))"

definition sanitize_analyze :: "builtins \<Rightarrow> (string \<times> json) list \<Rightarrow> error + (string \<times> json) list option" where
  "sanitize_analyze B args =
     (let sy = py_upper (py_str B (dict_get_default args ''symbol'' (JStr []))) in
      bind_err (py_int (dict_get_default args ''days'' (JInt 365))) (\<lambda>days.
      let days = max 60 (min days 2000) in
      if sy = [] then Inr None
      else Inr (Some [(''symbol'', JStr sy), (''days'', JInt days)])))"

text \<open>\<open>[int(v) for v in vs if lo <= int(v) <= hi]\<close>.\<close>

fun int_values :: "json list \<Rightarrow> int \<Rightarrow> int \<Rightarrow> error + int list" where
  "int_values [] lo hi = Inr []"
| "int_values (v # vs) lo hi =
     bind_err (py_int v) (\<lambda>i.
     bind_err (int_values vs lo hi) (\<lambda>rest.
       Inr (if lo \<le> i \<and> i \<le> hi then i # rest else rest)))"

definition sanitize_optimize :: "builtins \<Rightarrow> (string \<times> json) list \<Rightarrow> error + (string \<times> json) list option" where
  "sanitize_optimize B args =
     (let sy = py_upper (py_str B (dict_get_default args ''symbol'' (JStr []))) in
      bind_err (py_int (dict_get_default args ''days'' (JInt 1200))) (\<lambda>days.
      let days = max 200 (min days 3000) in
      bind_err (py_iter (py_or (dict_get args ''fast_values'')
                               (JList [JInt 10, JInt 20, JInt 50]))) (\<lambda>fvs.
      bind_err (int_values fvs 2 200) (\<lambda>fast_values.
      bind_err (py_iter (py_or (dict_get args ''slow_values'')
                               (JList [JInt 100, JInt 150, JInt 200, JInt 250]))) (\<lambda>svs.
      bind_err (int_values svs 5 400) (\<lambda>slow_values.
      let fast_values = take 8 (sort (remdups fast_values));
          slow_values = take 8 (sort (remdups slow_values)) in
      bind_err (py_float B (dict_get_default args ''split'' (JFloat (Fin 0.7)))) (\<lambda>sp.
      let sp = round2 (f_max (Fin 0.5) (f_min sp (Fin 0.9))) in
      bind_err (py_int (dict_get_default args ''top_k'' (JInt 5))) (\<lambda>top_k.
      let top_k = max 1 (min top_k 10) in
      if sy = [] then Inr None
      else Inr (Some [(''symbol'', JStr sy), (''days'', JInt days),
                      (''fast_values'', JList (map JInt fast_values)),
                      (''slow_values'', JList (map JInt slow_values)),
                      (''split'', JFloat sp), (''top_k'', JInt top_k)])))))))))"

definition sanitize_backtest :: "builtins \<Rightarrow> (string \<times> json) list \<Rightarrow> error + (string \<times> json) list option" where
  "sanitize_backtest B args =
     (let sy = py_upper (py_str B (dict_get_default args ''symbol'' (JStr []))) in
      bind_err (py_int (dict_get_default args ''fast'' (JInt 50))) (\<lambda>fast.
      bind_err (py_int (dict_get_default args ''slow'' (JInt 200))) (\<lambda>slow.
      bind_err (py_int (dict_get_default args ''days'' (JInt 1200))) (\<lambda>days.
      if sy = [] \<or> fast \<ge> slow then Inr None
      else let days = max 200 (min days 3000);
               fast = max 2 (min fast 200);
               slow = max 5 (min slow 400)
           in Inr (Some [(''symbol'', JStr sy), (''fast'', JInt fast),
                         (''slow'', JInt slow), (''days'', JInt days)])))))"

text \<open>The body of the loop up to the deduplication: the tool name, the whitelist, the
  arguments and their sanitation.\<close>

definition sanitize_step :: "builtins \<Rightarrow> json \<Rightarrow> error + step option" where
  "sanitize_step B s =
     (case s of
        JDict sd \<Rightarrow>
          (case py_or (dict_get sd ''tool'') (JStr []) of
             JStr ts \<Rightarrow>
               (let t = py_strip ts in
                if t \<notin> ALLOWED_TOOLS then Inr None
                else
                  bind_err (py_dict (py_or (dict_get sd ''args'') (JDict []))) (\<lambda>args.
                  bind_err (if t = ''screen'' then sanitize_screen B args
                            else if t = ''analyze'' then sanitize_analyze B args
                            else if t = ''optimize_backtest'' then sanitize_optimize B args
                            else if t = ''backtest'' then sanitize_backtest B args
                            else Inr (Some args)) (\<lambda>r.
                    Inr (map_option (Pair t) r))))
           | _ \<Rightarrow> Inl AttributeError)
      | _ \<Rightarrow> Inl AttributeError)"

text \<open>The loop over \<open>steps[:MAX_PLAN_STEPS]\<close> with the set \<open>seen\<close> of keys and the list
  \<open>clean\<close>.\<close>

fun validate_loop ::
  "builtins \<Rightarrow> json list \<Rightarrow> (string \<times> string) list \<Rightarrow> step list \<Rightarrow> error + step list" where
  "validate_loop B [] seen clean = Inr clean"
| "validate_loop B (s # ss) seen clean =
     (case sanitize_step B s of
        Inl e \<Rightarrow> Inl e
      | Inr None \<Rightarrow> validate_loop B ss seen clean
      | Inr (Some (t, args)) \<Rightarrow>
          (let key = (t, json_dumps B (JDict args)) in
           if key \<in> set seen then validate_loop B ss seen clean
           else validate_loop B ss (key # seen) (clean @ [(t, args)])))"

definition step_json :: "step \<Rightarrow> json" where
  "step_json st = JDict [(''tool'', JStr (fst st)), (''args'', JDict (snd st))]"

text \<open>\<open>list(plan.get("steps") or [])\<close>.\<close>

definition raw_steps :: "json \<Rightarrow> error + json list" where
  "raw_steps plan =
     (case plan of
        JDict pd \<Rightarrow> py_iter (py_or (dict_get pd ''steps'') (JList []))
      | _ \<Rightarrow> Inl AttributeError)"

definition validate_plan :: "builtins \<Rightarrow> json \<Rightarrow> error + json" where
  "validate_plan B plan =
     bind_err (raw_steps plan) (\<lambda>steps.
     bind_err (validate_loop B (take MAX_PLAN_STEPS steps) [] []) (\<lambda>clean.
       (case plan of
          JDict pd \<Rightarrow> Inr (JDict (AList.update ''steps'' (JList (map step_json clean)) pd))
        | _ \<Rightarrow> Inl AttributeError)))"

text \<open>Reading a validated plan: its steps, and the tool, the arguments and the
  canonical key \<open>(tool, json.dumps(args, sort_keys=True))\<close> of a step.\<close>

definition plan_steps :: "json \<Rightarrow> json list" where
  "plan_steps plan =
     (case plan of
        JDict pd \<Rightarrow> (case map_of pd ''steps'' of Some (JList xs) \<Rightarrow> xs | _ \<Rightarrow> [])
      | _ \<Rightarrow> [])"

definition step_tool :: "json \<Rightarrow> string" where
  "step_tool s =
     (case s of
        JDict sd \<Rightarrow> (case map_of sd ''tool'' of Some (JStr t) \<Rightarrow> t | _ \<Rightarrow> [])
      | _ \<Rightarrow> [])"

definition step_args :: "json \<Rightarrow> json" where
  "step_args s = (case s of JDict sd \<Rightarrow> dict_get sd ''args'' | _ \<Rightarrow> JNull)"

definition step_key :: "builtins \<Rightarrow> json \<Rightarrow> string \<times> string" where
  "step_key B s = (step_tool s, json_dumps B (step_args s))"

definition arg_int :: "json \<Rightarrow> string \<Rightarrow> int option" where
  "arg_int args k =
     (case args of
        JDict d \<Rightarrow> (case map_of d k of Some (JInt i) \<Rightarrow> Some i | _ \<Rightarrow> None)
      | _ \<Rightarrow> None)"

text \<open>The sanitized forms of the steps of a list, in order: one entry for every step
  that the sanitation keeps.\<close>

definition sanitized_forms :: "builtins \<Rightarrow> json list \<Rightarrow> json list" where
  "sanitized_forms B ss =
     concat (map (\<lambda>s. case sanitize_step B s of Inr (Some st) \<Rightarrow> [step_json st] | _ \<Rightarrow> []) ss)"

text \<open>A plan of the expected shape: an object whose \<open>steps\<close> is absent, null or a list
  whose first six entries are objects with a string (or absent, or null) tool and
  arguments that are absent, null or an object in which \<open>days\<close>, \<open>fast\<close>, \<open>slow\<close> and
  \<open>top_k\<close> are numbers, \<open>split\<close> is a float or an int within the range of a float,
  \<open>symbols\<close> is a list and \<open>fast_values\<close> and \<open>slow_values\<close> are lists of numbers,
  wherever they are present (a list may also be null).\<close>

definition is_number :: "json \<Rightarrow> bool" where
  "is_number v = (case v of JInt _ \<Rightarrow> True | JBool _ \<Rightarrow> True | JFloat (Fin _) \<Rightarrow> True | _ \<Rightarrow> False)"

definition number_arg :: "(string \<times> json) list \<Rightarrow> string \<Rightarrow> bool" where
  "number_arg d k = (case map_of d k of None \<Rightarrow> True | Some v \<Rightarrow> is_number v)"

definition split_arg :: "(string \<times> json) list \<Rightarrow> bool" where
  "split_arg d =
     (case map_of d ''split'' of
        None \<Rightarrow> True
      | Some (JFloat _) \<Rightarrow> True
      | Some (JBool _) \<Rightarrow> True
      | Some (JInt i) \<Rightarrow> \<bar>i\<bar> < 2 ^ 1024 - 2 ^ 970
      | _ \<Rightarrow> False)"

definition list_arg :: "(json \<Rightarrow> bool) \<Rightarrow> (string \<times> json) list \<Rightarrow> string \<Rightarrow> bool" where
  "list_arg P d k =
     (case map_of d k of
        None \<Rightarrow> True
      | Some JNull \<Rightarrow> True
      | Some (JList xs) \<Rightarrow> list_all P xs
      | _ \<Rightarrow> False)"

definition args_shape :: "(string \<times> json) list \<Rightarrow> bool" where
  "args_shape d =
     (number_arg d ''days'' \<and> number_arg d ''fast'' \<and> number_arg d ''slow''
      \<and> number_arg d ''top_k'' \<and> split_arg d
      \<and> list_arg (\<lambda>_. True) d ''symbols''
      \<and> list_arg is_number d ''fast_values'' \<and> list_arg is_number d ''slow_values'')"

definition step_shape :: "json \<Rightarrow> bool" where
  "step_shape s =
     (case s of
        JDict sd \<Rightarrow>
          (case map_of sd ''tool'' of None \<Rightarrow> True | Some JNull \<Rightarrow> True | Some (JStr _) \<Rightarrow> True
                                    | _ \<Rightarrow> False)
          \<and> (case map_of sd ''args'' of None \<Rightarrow> True | Some JNull \<Rightarrow> True
                                        | Some (JDict d) \<Rightarrow> args_shape d | _ \<Rightarrow> False)
      | _ \<Rightarrow> False)"

definition plan_shape :: "json \<Rightarrow> bool" where
  "plan_shape plan =
     (case plan of
        JDict pd \<Rightarrow>
          (case map_of pd ''steps'' of
             None \<Rightarrow> True
           | Some JNull \<Rightarrow> True
           | Some (JList ss) \<Rightarrow> list_all step_shape (take MAX_PLAN_STEPS ss)
           | _ \<Rightarrow> False)
      | _ \<Rightarrow> False)"

text \<open>The steps that the sanitation keeps, before deduplication, and the key that the
  loop computes for a kept step.\<close>

definition kept_steps :: "builtins \<Rightarrow> json list \<Rightarrow> step list" where
  "kept_steps B ss =
     concat (map (\<lambda>s. case sanitize_step B s of Inr (Some st) \<Rightarrow> [st] | _ \<Rightarrow> []) ss)"

definition key_of :: "builtins \<Rightarrow> step \<Rightarrow> string \<times> string" where
  "key_of B st = (fst st, json_dumps B (JDict (snd st)))"

section \<open>Theorems\<close>


subsection \<open>Backtester: helper lemmas\<close>


lemma bind_err_Inr_iff:
  "bind_err m f = Inr y \<longleftrightarrow> (\<exists>x. m = Inr x \<and> f x = Inr y)"
  by (cases m) (simp_all add: bind_err_def)












lemma backtest_sma_cross_InrD:
  assumes "backtest_sma_cross prices f s = Inr res"
  shows "\<exists>fs ss. sma prices f = Inr fs \<and> sma prices s = Inr ss
           \<and> returns res = map2 (*) (pct_change_fill prices) (position_signal fs ss)
           \<and> equity res = cumprod (map (\<lambda>r. 1 + r) (returns res))
           \<and> MaxDrawdown (metrics res) = max_drawdown (equity res)
           \<and> WinRate (metrics res) = mean (map (\<lambda>r. if r > 0 then 1 else 0) (returns res))
           \<and> f < s \<and> max s f + 5 \<le> int (length prices)"
  using assms
  by (auto simp: backtest_sma_cross_def Let_def bind_err_Inr_iff split: if_splits)

lemma backtest_sma_cross_returns:
  assumes "0 \<le> f" "f < s" "max f s + 5 \<le> int (length prices)"
  shows "\<exists>res. backtest_sma_cross prices f s = Inr res"
  using assms by (simp add: backtest_sma_cross_def Let_def bind_err_def sma_def max.commute)

lemma fold_max_in: "fold max xs (a::real) \<in> insert a (set xs)"
  by (induction xs arbitrary: a) (auto simp: max_def)

lemma list_max_in_set: "xs \<noteq> [] \<Longrightarrow> list_max xs \<in> set xs"
  using fold_max_in[of "tl xs" "hd xs"] by (cases xs) (auto simp: list_max_def)

lemma length_cummax_from: "length (cummax_from m xs) = length xs"
  by (induction xs arbitrary: m) simp_all

lemma length_cummax: "length (cummax xs) = length xs"
  by (cases xs) (simp_all add: cummax_def length_cummax_from)

lemma max_drawdown_bounds: "0 \<le> max_drawdown e \<and> max_drawdown e \<le> 1"
proof (cases "e = []")
  case True
  then show ?thesis by (simp add: max_drawdown_def)
next
  case False
  let ?dd = "map clip01 (map2 (\<lambda>pk v. (pk - v) / pk) (cummax e) e)"
  have "length ?dd = length e" by (simp add: length_cummax)
  with False have "?dd \<noteq> []" by auto
  then have "list_max ?dd \<in> set ?dd" by (rule list_max_in_set)
  then obtain x where "list_max ?dd = clip01 x" by auto
  moreover have "0 \<le> clip01 x \<and> clip01 x \<le> 1" by (simp add: clip01_def)
  ultimately show ?thesis using False by (simp add: max_drawdown_def Let_def)
qed

lemma sum_list_01:
  "\<forall>x\<in>set xs. 0 \<le> x \<and> x \<le> (1::real) \<Longrightarrow> 0 \<le> sum_list xs \<and> sum_list xs \<le> real (length xs)"
  by (induction xs) auto

lemma mean_01:
  assumes "\<forall>x\<in>set xs. 0 \<le> x \<and> x \<le> (1::real)"
  shows "0 \<le> mean xs \<and> mean xs \<le> 1"
proof (cases "xs = []")
  case True
  then show ?thesis by (simp add: mean_def)
next
  case False
  then have "0 < real (length xs)" by simp
  with sum_list_01[OF assms] show ?thesis
    by (simp add: mean_def divide_le_eq)
qed

subsection \<open>Backtester: metrics stay in range\<close>

text \<open>
  C7. Whenever \<open>backtest_sma_cross\<close> returns a result (so \<open>fast < slow\<close> and the series
  has at least \<open>max(fast, slow) + 5\<close> bars), the returned MaxDrawdown and WinRate are both
  in the interval from 0 to 1.
\<close>


theorem backtest_metrics_bounds:
  assumes "backtest_sma_cross prices f s = Inr res"
  shows "0 \<le> MaxDrawdown (metrics res) \<and> MaxDrawdown (metrics res) \<le> 1
       \<and> 0 \<le> WinRate (metrics res) \<and> WinRate (metrics res) \<le> 1"
proof -
  from backtest_sma_cross_InrD[OF assms]
  have md: "MaxDrawdown (metrics res) = max_drawdown (equity res)"
    and wr: "WinRate (metrics res) = mean (map (\<lambda>r. if r > 0 then 1 else 0) (returns res))"
    by auto
  have "0 \<le> mean (map (\<lambda>r. if r > 0 then 1 else 0) (returns res))
      \<and> mean (map (\<lambda>r. if r > 0 then 1 else 0) (returns res)) \<le> 1"
    by (rule mean_01) auto
  with md wr max_drawdown_bounds[of "equity res"] show ?thesis by simp
qed

theorem backtest_metrics_bounds_witness:
  "\<exists>res. backtest_sma_cross [10, 11, 12, 11, 13, 14, 15] 1 2 = Inr res
      \<and> 0 \<le> MaxDrawdown (metrics res) \<and> MaxDrawdown (metrics res) \<le> 1
      \<and> 0 \<le> WinRate (metrics res) \<and> WinRate (metrics res) \<le> 1"
proof -
  have "\<exists>res. backtest_sma_cross [10, 11, 12, 11, 13, 14, 15] 1 2 = Inr res"
    by (rule backtest_sma_cross_returns) simp_all
  then obtain res where r: "backtest_sma_cross [10, 11, 12, 11, 13, 14, 15] 1 2 = Inr res"
    by blast
  from r backtest_metrics_bounds[OF r] show ?thesis by blast
qed

subsection \<open>Backtester: the equity curve\<close>




subsection \<open>Optimizer: helper lemmas\<close>









subsection \<open>Optimizer: ranking lemmas\<close>



subsection \<open>Optimizer: leaderboard and best entry\<close>




subsection \<open>Optimizer: the chronological split\<close>




subsection \<open>Batch screening: a failing symbol\<close>

text \<open>
  C4 (the code departs from the claim). A symbol whose analysis raises is not recorded
  in \<open>errors\<close>: the handler raises NameError and the batch is aborted, also for the
  symbols that come after it.
\<close>

theorem screen_failure_aborts_batch:
  "screen (\<lambda>s d. if s = ''BAD'' then Inl ValueError else Inr (analyze s None None 0 0))
      [''AAPL'', ''BAD'', ''MSFT''] 365 = Inl NameError"
  by (simp add: screen_def bind_err_def)

subsection \<open>Run memory: helper lemmas\<close>

lemma int_or_null_cases:
  "int_or_null v \<Longrightarrow> v = None \<or> v = Some JNull \<or> (\<exists>i. v = Some (JInt i))"
  by (cases v) (auto simp: int_or_null_def split: json.splits)

lemma record_params_no_pick:
  "map_of rd ''top_pick'' \<noteq> Some (JStr sy) \<Longrightarrow> record_params sy (JDict rd) = None"
  by (simp add: record_params_def split: option.splits json.splits)

lemma record_params_pick:
  "map_of rd ''top_pick'' = Some (JStr sy) \<Longrightarrow>
   record_params sy (JDict rd) =
     (case map_of rd ''best_params'' of
        Some (JDict bd) \<Rightarrow>
          (case (map_of bd ''fast'', map_of bd ''slow'') of
             (Some (JInt f), Some (JInt s)) \<Rightarrow> if f \<noteq> 0 \<and> s \<noteq> 0 then Some (f, s) else None
           | _ \<Rightarrow> None)
      | _ \<Rightarrow> None)"
  by (auto simp: record_params_def split: option.splits json.splits)

lemma top_pick_eq:
  "(dict_get rd ''top_pick'' = JStr sy) = (map_of rd ''top_pick'' = Some (JStr sy))"
  by (simp add: dict_get_def split: option.splits)

lemma scan_params_step:
  assumes "memory_record_ok r"
  shows "scan_params sy (r # rs) =
           (case record_params sy r of None \<Rightarrow> scan_params sy rs | Some p \<Rightarrow> Inr (Some p))"
proof -
  from assms obtain rd where r: "r = JDict rd"
    by (cases r) (simp_all add: memory_record_ok_def)
  show ?thesis
  proof (cases "map_of rd ''top_pick'' = Some (JStr sy)")
    case False
    then show ?thesis by (simp add: r record_params_no_pick top_pick_eq)
  next
    case pick: True
    show ?thesis
    proof (cases "map_of rd ''best_params''")
      case None
      then show ?thesis
        by (simp add: r record_params_pick[OF pick] top_pick_eq pick dict_get_def py_truthy_def)
    next
      case (Some bp)
      with assms r have "bp = JNull \<or> (\<exists>bd. bp = JDict bd
        \<and> int_or_null (map_of bd ''fast'') \<and> int_or_null (map_of bd ''slow''))"
        by (cases bp) (simp_all add: memory_record_ok_def)
      then show ?thesis
      proof
        assume "bp = JNull"
        with Some show ?thesis
          by (simp add: r record_params_pick[OF pick] top_pick_eq pick dict_get_def py_truthy_def)
      next
        assume "\<exists>bd. bp = JDict bd
          \<and> int_or_null (map_of bd ''fast'') \<and> int_or_null (map_of bd ''slow'')"
        then obtain bd where bd: "bp = JDict bd" and f: "int_or_null (map_of bd ''fast'')"
          and s: "int_or_null (map_of bd ''slow'')" by blast
        from int_or_null_cases[OF f] int_or_null_cases[OF s] show ?thesis
          by (elim disjE exE)
             (auto simp add: r Some bd record_params_pick[OF pick] top_pick_eq pick dict_get_def
                py_truthy_def py_int_def bind_err_def)
      qed
    qed
  qed
qed

lemma scan_params_spec:
  "\<forall>r\<in>set rs. memory_record_ok r \<Longrightarrow>
     scan_params sy rs =
       Inr (case List.map_filter (record_params sy) rs of [] \<Rightarrow> None | p # _ \<Rightarrow> Some p)"
proof (induction rs)
  case Nil
  then show ?case by (simp add: List.map_filter_simps)
next
  case (Cons r rs)
  then have ok: "memory_record_ok r" and IH: "scan_params sy rs =
       Inr (case List.map_filter (record_params sy) rs of [] \<Rightarrow> None | p # _ \<Rightarrow> Some p)"
    by simp_all
  show ?case
    unfolding scan_params_step[OF ok] IH
    by (simp add: List.map_filter_simps split: option.splits)
qed

subsection \<open>Run memory: the remembered parameters\<close>

text \<open>
  C9 (as amended). For every memory file whose last 50 records are objects as \<open>run_once\<close>
  writes them, \<open>last_best_params(symbol)\<close> scans those records newest first and returns
  the (fast, slow) pair of the first record whose top pick is the symbol and whose best
  parameters hold a fast and a slow value that are both present and non-zero (not
  necessarily positive); if there is no such record it returns nothing.
\<close>

theorem last_best_params_newest_first:
  assumes "\<forall>r\<in>set (recent 50 mem). memory_record_ok r"
  shows "last_best_params mem sy = Inr (spec_last_best_params mem sy)
       \<and> recent 50 mem = drop (length mem - 50) mem"
proof -
  from assms have "\<forall>r\<in>set (rev (recent 50 mem)). memory_record_ok r" by simp
  from scan_params_spec[OF this, of sy]
  have "last_best_params mem sy = Inr (spec_last_best_params mem sy)"
    by (simp add: last_best_params_def spec_last_best_params_def)
  moreover have "recent 50 mem = drop (length mem - 50) mem" by (simp add: recent_def)
  ultimately show ?thesis by simp
qed

theorem last_best_params_newest_first_witness:
  "last_best_params
     [JDict [(''top_pick'', JStr ''AAPL''),
             (''best_params'', JDict [(''fast'', JInt 10), (''slow'', JInt 100)])],
      JDict [(''top_pick'', JStr ''MSFT''),
             (''best_params'', JDict [(''fast'', JInt 20), (''slow'', JInt 150)])],
      JDict [(''top_pick'', JStr ''AAPL''), (''best_params'', JNull)],
      JDict [(''top_pick'', JStr ''AAPL''),
             (''best_params'', JDict [(''fast'', JInt 0), (''slow'', JInt 200)])]]
     ''AAPL'' = Inr (Some (10, 100))"
proof -
  let ?mem = "[JDict [(''top_pick'', JStr ''AAPL''),
             (''best_params'', JDict [(''fast'', JInt 10), (''slow'', JInt 100)])],
      JDict [(''top_pick'', JStr ''MSFT''),
             (''best_params'', JDict [(''fast'', JInt 20), (''slow'', JInt 150)])],
      JDict [(''top_pick'', JStr ''AAPL''), (''best_params'', JNull)],
      JDict [(''top_pick'', JStr ''AAPL''),
             (''best_params'', JDict [(''fast'', JInt 0), (''slow'', JInt 200)])]]"
  have ok: "\<forall>r\<in>set (recent 50 ?mem). memory_record_ok r"
    by (simp add: recent_def memory_record_ok_def int_or_null_def)
  have sp: "spec_last_best_params ?mem ''AAPL'' = Some (10, 100)"
    by (simp add: spec_last_best_params_def recent_def record_params_def List.map_filter_simps)
  from last_best_params_newest_first[OF ok, of "''AAPL''"] sp show ?thesis by simp
qed

text \<open>
  The claim as stated (both values positive) fails on a record with a negative value:
  it is truthy, so the pair is returned.
\<close>

theorem last_best_params_negative_values:
  "last_best_params
     [JDict [(''top_pick'', JStr ''AAPL''),
             (''best_params'', JDict [(''fast'', JInt (- 5)), (''slow'', JInt 10)])]]
     ''AAPL'' = Inr (Some (- 5, 10))"
  by (simp add: last_best_params_def recent_def dict_get_def py_truthy_def py_int_def bind_err_def)

subsection \<open>Plan validator: one step\<close>

lemma sanitize_backtest_Some:
  assumes "sanitize_backtest B args = Inr (Some a)"
  shows "\<exists>f sl. arg_int (JDict a) ''fast'' = Some f \<and> arg_int (JDict a) ''slow'' = Some sl
           \<and> f < sl"
  using assms
  by (auto simp: sanitize_backtest_def Let_def bind_err_Inr_iff arg_int_def split: if_splits)

lemma sanitize_step_SomeD:
  assumes "sanitize_step B s = Inr (Some (t, args))"
  shows "t \<in> ALLOWED_TOOLS \<and> (t = ''backtest'' \<longrightarrow> sanitize_backtest B
            (case py_dict (py_or (step_args s) (JDict [])) of Inr d \<Rightarrow> d | Inl _ \<Rightarrow> []) = Inr (Some args))"
proof -
  from assms obtain sd where s: "s = JDict sd"
    by (cases s) (simp_all add: sanitize_step_def)
  from assms s obtain ts where ts: "py_or (dict_get sd ''tool'') (JStr []) = JStr ts"
    by (cases "py_or (dict_get sd ''tool'') (JStr [])") (simp_all add: sanitize_step_def)
  from assms have t: "py_strip ts \<in> ALLOWED_TOOLS"
    by (simp add: sanitize_step_def s ts Let_def split: if_splits)
  from assms t obtain d r where d: "py_dict (py_or (dict_get sd ''args'') (JDict [])) = Inr d"
    and r: "(if py_strip ts = ''screen'' then sanitize_screen B d
             else if py_strip ts = ''analyze'' then sanitize_analyze B d
             else if py_strip ts = ''optimize_backtest'' then sanitize_optimize B d
             else if py_strip ts = ''backtest'' then sanitize_backtest B d
             else Inr (Some d)) = Inr r"
    and m: "map_option (Pair (py_strip ts)) r = Some (t, args)"
    by (auto simp: sanitize_step_def s ts Let_def bind_err_Inr_iff)
  from m have tt: "t = py_strip ts" and rr: "r = Some args" by auto
  from r rr tt have "t = ''backtest'' \<longrightarrow> sanitize_backtest B d = Inr (Some args)"
    by auto
  with t tt d s show ?thesis by (simp add: step_args_def)
qed

lemma sanitize_step_Some_props:
  assumes "sanitize_step B s = Inr (Some (t, args))"
  shows "t \<in> ALLOWED_TOOLS"
    and "t = ''backtest'' \<Longrightarrow> \<exists>f sl. arg_int (JDict args) ''fast'' = Some f
            \<and> arg_int (JDict args) ''slow'' = Some sl \<and> f < sl"
  using sanitize_step_SomeD[OF assms] sanitize_backtest_Some by blast+

subsection \<open>Plan validator: the loop\<close>

lemma sanitized_forms_kept: "sanitized_forms B ss = map step_json (kept_steps B ss)"
  by (induction ss)
     (auto simp: sanitized_forms_def kept_steps_def split: sum.splits option.splits)

lemma kept_steps_Nil: "kept_steps B [] = []"
  by (simp add: kept_steps_def)

lemma kept_steps_Cons:
  "kept_steps B (s # ss) =
     (case sanitize_step B s of Inr (Some st) \<Rightarrow> [st] | _ \<Rightarrow> []) @ kept_steps B ss"
  by (simp add: kept_steps_def)

lemma kept_steps_mem:
  "st \<in> set (kept_steps B ss) \<Longrightarrow> \<exists>s\<in>set ss. sanitize_step B s = Inr (Some st)"
  by (auto simp: kept_steps_def split: sum.splits option.splits)

lemma length_kept_steps: "length (kept_steps B ss) \<le> length ss"
  by (induction ss) (auto simp: kept_steps_Nil kept_steps_Cons split: sum.splits option.splits)

lemma validate_loop_subseq:
  "validate_loop B ss seen clean = Inr out \<Longrightarrow>
     \<exists>new. out = clean @ new \<and> subseq new (kept_steps B ss)"
proof (induction ss arbitrary: seen clean)
  case Nil
  then show ?case by (simp add: kept_steps_def)
next
  case (Cons s ss)
  show ?case
  proof (cases "sanitize_step B s")
    case (Inl e)
    with Cons.prems show ?thesis by simp
  next
    case (Inr r)
    show ?thesis
    proof (cases r)
      case None
      with Inr Cons.prems have "validate_loop B ss seen clean = Inr out" by simp
      from Cons.IH[OF this] None Inr show ?thesis by (simp add: kept_steps_Cons)
    next
      case (Some st)
      obtain t args where st: "st = (t, args)" by (cases st)
      show ?thesis
      proof (cases "(t, json_dumps B (JDict args)) \<in> set seen")
        case True
        with Inr Some st Cons.prems have "validate_loop B ss seen clean = Inr out" by simp
        from Cons.IH[OF this] obtain new where "out = clean @ new"
          and "subseq new (kept_steps B ss)" by blast
        then show ?thesis using Inr Some by (auto simp: kept_steps_Cons intro: subseq_Cons')
      next
        case False
        with Inr Some st Cons.prems
        have "validate_loop B ss ((t, json_dumps B (JDict args)) # seen) (clean @ [(t, args)])
                = Inr out" by simp
        from Cons.IH[OF this] obtain new where "out = (clean @ [(t, args)]) @ new"
          and "subseq new (kept_steps B ss)" by blast
        then have "out = clean @ (st # new)" "subseq (st # new) (st # kept_steps B ss)"
          by (simp_all add: st)
        then show ?thesis using Inr Some by (auto simp: kept_steps_Cons)
      qed
    qed
  qed
qed

lemma validate_loop_distinct:
  "validate_loop B ss seen clean = Inr out \<Longrightarrow>
   distinct (map (key_of B) clean) \<Longrightarrow> set (map (key_of B) clean) \<subseteq> set seen \<Longrightarrow>
   distinct (map (key_of B) out)"
proof (induction ss arbitrary: seen clean)
  case Nil
  then show ?case by simp
next
  case (Cons s ss)
  show ?case
  proof (cases "sanitize_step B s")
    case (Inl e)
    with Cons.prems show ?thesis by simp
  next
    case (Inr r)
    show ?thesis
    proof (cases r)
      case None
      with Inr Cons.prems have "validate_loop B ss seen clean = Inr out" by simp
      from Cons.IH[OF this Cons.prems(2,3)] show ?thesis .
    next
      case (Some st)
      obtain t args where st: "st = (t, args)" by (cases st)
      show ?thesis
      proof (cases "(t, json_dumps B (JDict args)) \<in> set seen")
        case True
        with Inr Some st Cons.prems have "validate_loop B ss seen clean = Inr out" by simp
        from Cons.IH[OF this Cons.prems(2,3)] show ?thesis .
      next
        case False
        with Inr Some st Cons.prems
        have run: "validate_loop B ss ((t, json_dumps B (JDict args)) # seen) (clean @ [(t, args)])
                = Inr out" by simp
        from False Cons.prems(3) have "key_of B (t, args) \<notin> set (map (key_of B) clean)"
          by (auto simp: key_of_def)
        with Cons.prems(2) have d: "distinct (map (key_of B) (clean @ [(t, args)]))" by simp
        have sub: "set (map (key_of B) (clean @ [(t, args)]))
                     \<subseteq> set ((t, json_dumps B (JDict args)) # seen)"
          using Cons.prems(3) by (auto simp: key_of_def)
        from Cons.IH[OF run d sub] show ?thesis .
      qed
    qed
  qed
qed

subsection \<open>Plan validator: reading the result\<close>

lemma subseq_mem: "subseq xs ys \<Longrightarrow> x \<in> set xs \<Longrightarrow> x \<in> set ys"
  using list_emb_set[of "(=)" xs ys x] by auto

lemma step_json_simps:
  "step_tool (step_json st) = fst st"
  "step_args (step_json st) = JDict (snd st)"
  "step_key B (step_json st) = key_of B st"
  by (simp_all add: step_json_def step_tool_def step_args_def step_key_def key_of_def dict_get_def)

lemma validate_plan_InrD:
  assumes "validate_plan B plan = Inr out"
  shows "\<exists>pd steps clean. plan = JDict pd \<and> raw_steps plan = Inr steps
           \<and> validate_loop B (take MAX_PLAN_STEPS steps) [] [] = Inr clean
           \<and> out = JDict (AList.update ''steps'' (JList (map step_json clean)) pd)
           \<and> plan_steps out = map step_json clean"
proof -
  from assms obtain steps clean where rs: "raw_steps plan = Inr steps"
    and vl: "validate_loop B (take MAX_PLAN_STEPS steps) [] [] = Inr clean"
    and o: "(case plan of
          JDict pd \<Rightarrow> Inr (JDict (AList.update ''steps'' (JList (map step_json clean)) pd))
        | _ \<Rightarrow> Inl AttributeError) = Inr out"
    by (auto simp: validate_plan_def bind_err_Inr_iff)
  from o obtain pd where pd: "plan = JDict pd" by (cases plan) simp_all
  with o have out: "out = JDict (AList.update ''steps'' (JList (map step_json clean)) pd)"
    by simp
  have "plan_steps out = map step_json clean"
    by (simp add: out plan_steps_def update_conv')
  with rs vl pd out show ?thesis by blast
qed

subsection \<open>Plan validator: invariants of the validated plan\<close>

text \<open>
  C1. Whenever \<open>_validate_plan\<close> returns a plan, that plan has at most 6 steps, the tool
  of every step is in the whitelist screen, analyze, optimize_backtest, backtest, no
  two steps have the same canonical key (tool, serialisation of the arguments with
  sorted keys), and every backtest step has \<open>fast < slow\<close>.
\<close>

theorem validate_plan_invariants:
  assumes "validate_plan B plan = Inr out"
  shows "length (plan_steps out) \<le> 6
       \<and> (\<forall>s\<in>set (plan_steps out). step_tool s \<in> ALLOWED_TOOLS)
       \<and> distinct (map (step_key B) (plan_steps out))
       \<and> (\<forall>s\<in>set (plan_steps out). step_tool s = ''backtest'' \<longrightarrow>
            (\<exists>f sl. arg_int (step_args s) ''fast'' = Some f
                  \<and> arg_int (step_args s) ''slow'' = Some sl \<and> f < sl))"
proof -
  from validate_plan_InrD[OF assms] obtain pd steps clean where
    vl: "validate_loop B (take MAX_PLAN_STEPS steps) [] [] = Inr clean"
    and ps: "plan_steps out = map step_json clean" by blast
  from validate_loop_subseq[OF vl] have sub: "subseq clean (kept_steps B (take MAX_PLAN_STEPS steps))"
    by simp
  have "length clean \<le> length (kept_steps B (take MAX_PLAN_STEPS steps))"
    using sub by (rule list_emb_length)
  also have "\<dots> \<le> length (take MAX_PLAN_STEPS steps)" by (rule length_kept_steps)
  also have "\<dots> \<le> 6" by (simp add: MAX_PLAN_STEPS_def)
  finally have len: "length (plan_steps out) \<le> 6" by (simp add: ps)
  have src: "\<exists>s. sanitize_step B s = Inr (Some st)" if "st \<in> set clean" for st
  proof -
    from sub that have "st \<in> set (kept_steps B (take MAX_PLAN_STEPS steps))"
      by (rule subseq_mem)
    from kept_steps_mem[OF this] show ?thesis by blast
  qed
  have tools: "\<forall>s\<in>set (plan_steps out). step_tool s \<in> ALLOWED_TOOLS"
  proof
    fix s assume "s \<in> set (plan_steps out)"
    then obtain st where st: "st \<in> set clean" and s: "s = step_json st" by (auto simp: ps)
    from src[OF st] obtain raw where "sanitize_step B raw = Inr (Some (fst st, snd st))" by auto
    from sanitize_step_Some_props(1)[OF this] show "step_tool s \<in> ALLOWED_TOOLS"
      by (simp add: s step_json_simps)
  qed
  have bt: "\<forall>s\<in>set (plan_steps out). step_tool s = ''backtest'' \<longrightarrow>
            (\<exists>f sl. arg_int (step_args s) ''fast'' = Some f
                  \<and> arg_int (step_args s) ''slow'' = Some sl \<and> f < sl)"
  proof (intro ballI impI)
    fix s assume "s \<in> set (plan_steps out)" and b: "step_tool s = ''backtest''"
    then obtain st where st: "st \<in> set clean" and s: "s = step_json st" by (auto simp: ps)
    from src[OF st] obtain raw where r: "sanitize_step B raw = Inr (Some (fst st, snd st))" by auto
    from b have "fst st = ''backtest''" by (simp add: s step_json_simps)
    from sanitize_step_Some_props(2)[OF r this]
    show "\<exists>f sl. arg_int (step_args s) ''fast'' = Some f
                  \<and> arg_int (step_args s) ''slow'' = Some sl \<and> f < sl"
      by (simp add: s step_json_simps)
  qed
  have "distinct (map (key_of B) clean)"
    by (rule validate_loop_distinct[OF vl]) simp_all
  then have dist: "distinct (map (step_key B) (plan_steps out))"
    by (simp add: ps comp_def step_json_simps)
  from len tools dist bt show ?thesis by blast
qed

lemmas validator_defs =
  validate_plan_def raw_steps_def bind_err_def py_iter_def py_or_def py_truthy_def
  dict_get_def dict_get_default_def MAX_PLAN_STEPS_def sanitize_step_def py_strip_def
  is_space_def ALLOWED_TOOLS_def py_dict_def sanitize_screen_def sanitize_analyze_def
  sanitize_backtest_def sanitize_optimize_def py_upper_def upper_char_def py_str_def
  py_int_def Let_def step_json_def

text \<open>The scenario of the specification (a screen step, a tool outside the whitelist,
  the screen step again), followed by a backtest step whose parameters are clamped.\<close>

theorem validate_plan_invariants_witness:
  "\<forall>B. validate_plan B
     (JDict [(''steps'', JList [
        JDict [(''tool'', JStr ''screen''),
               (''args'', JDict [(''symbols'', JList [JStr ''AAPL'']), (''days'', JInt 365)])],
        JDict [(''tool'', JStr ''delete_db''), (''args'', JDict [])],
        JDict [(''tool'', JStr ''screen''),
               (''args'', JDict [(''symbols'', JList [JStr ''AAPL'']), (''days'', JInt 365)])],
        JDict [(''tool'', JStr ''backtest''),
               (''args'', JDict [(''symbol'', JStr ''msft''), (''fast'', JInt 1),
                                 (''slow'', JInt 500)])]])])
   = Inr (JDict [(''steps'', JList [
        JDict [(''tool'', JStr ''screen''),
               (''args'', JDict [(''symbols'', JList [JStr ''AAPL'']), (''days'', JInt 365)])],
        JDict [(''tool'', JStr ''backtest''),
               (''args'', JDict [(''symbol'', JStr ''MSFT''), (''fast'', JInt 2),
                                 (''slow'', JInt 400), (''days'', JInt 1200)])]])])
   \<and> distinct (map (step_key B) [
        JDict [(''tool'', JStr ''screen''),
               (''args'', JDict [(''symbols'', JList [JStr ''AAPL'']), (''days'', JInt 365)])],
        JDict [(''tool'', JStr ''backtest''),
               (''args'', JDict [(''symbol'', JStr ''MSFT''), (''fast'', JInt 2),
                                 (''slow'', JInt 400), (''days'', JInt 1200)])]])"
proof
  fix B
  let ?plan = "JDict [(''steps'', JList [
        JDict [(''tool'', JStr ''screen''),
               (''args'', JDict [(''symbols'', JList [JStr ''AAPL'']), (''days'', JInt 365)])],
        JDict [(''tool'', JStr ''delete_db''), (''args'', JDict [])],
        JDict [(''tool'', JStr ''screen''),
               (''args'', JDict [(''symbols'', JList [JStr ''AAPL'']), (''days'', JInt 365)])],
        JDict [(''tool'', JStr ''backtest''),
               (''args'', JDict [(''symbol'', JStr ''msft''), (''fast'', JInt 1),
                                 (''slow'', JInt 500)])]])]"
  let ?steps = "[
        JDict [(''tool'', JStr ''screen''),
               (''args'', JDict [(''symbols'', JList [JStr ''AAPL'']), (''days'', JInt 365)])],
        JDict [(''tool'', JStr ''backtest''),
               (''args'', JDict [(''symbol'', JStr ''MSFT''), (''fast'', JInt 2),
                                 (''slow'', JInt 400), (''days'', JInt 1200)])]]"
  have run: "validate_plan B ?plan = Inr (JDict [(''steps'', JList ?steps)])"
    by (simp add: validator_defs)
  have "plan_steps (JDict [(''steps'', JList ?steps)]) = ?steps"
    by (simp add: plan_steps_def)
  with validate_plan_invariants[OF run]
  have "distinct (map (step_key B) ?steps)" by (simp only:)
  with run show "validate_plan B ?plan = Inr (JDict [(''steps'', JList ?steps)])
      \<and> distinct (map (step_key B) ?steps)" by (rule conjI)
qed

subsection \<open>Plan validator: order of the surviving steps\<close>

text \<open>
  C10. Whenever \<open>_validate_plan\<close> returns a plan, its steps are a subsequence of the
  sanitized forms of the first 6 input steps: every output step is the sanitized form
  of one of those input steps, and the output steps stand in the order of the input
  steps they come from.
\<close>

theorem validate_plan_preserves_order:
  assumes "validate_plan B plan = Inr out"
  shows "\<exists>steps. raw_steps plan = Inr steps
           \<and> subseq (plan_steps out) (sanitized_forms B (take 6 steps))
           \<and> (\<forall>y\<in>set (plan_steps out). \<exists>s\<in>set (take 6 steps). \<exists>st.
                  sanitize_step B s = Inr (Some st) \<and> y = step_json st)"
proof -
  from validate_plan_InrD[OF assms] obtain pd steps clean where
    rs: "raw_steps plan = Inr steps"
    and vl: "validate_loop B (take MAX_PLAN_STEPS steps) [] [] = Inr clean"
    and ps: "plan_steps out = map step_json clean" by blast
  from validate_loop_subseq[OF vl] have sub: "subseq clean (kept_steps B (take 6 steps))"
    by (simp add: MAX_PLAN_STEPS_def)
  then have "subseq (map step_json clean) (map step_json (kept_steps B (take 6 steps)))"
    by (rule subseq_map)
  then have order: "subseq (plan_steps out) (sanitized_forms B (take 6 steps))"
    by (simp add: ps sanitized_forms_kept)
  have mem: "\<forall>y\<in>set (plan_steps out). \<exists>s\<in>set (take 6 steps). \<exists>st.
                  sanitize_step B s = Inr (Some st) \<and> y = step_json st"
  proof
    fix y assume "y \<in> set (plan_steps out)"
    then obtain st where st: "st \<in> set clean" and y: "y = step_json st" by (auto simp: ps)
    from sub st have "st \<in> set (kept_steps B (take 6 steps))" by (rule subseq_mem)
    from kept_steps_mem[OF this] y
    show "\<exists>s\<in>set (take 6 steps). \<exists>st. sanitize_step B s = Inr (Some st) \<and> y = step_json st"
      by blast
  qed
  from rs order mem show ?thesis by blast
qed

text \<open>A plan whose steps are reordered by nothing: the unknown tool and the backtest
  with \<open>fast \<ge> slow\<close> are dropped, the others keep their order.\<close>

theorem validate_plan_preserves_order_witness:
  "\<forall>B. validate_plan B
     (JDict [(''steps'', JList [
        JDict [(''tool'', JStr ''backtest''),
               (''args'', JDict [(''symbol'', JStr ''ibm''), (''fast'', JInt 20),
                                 (''slow'', JInt 100), (''days'', JInt 5000)])],
        JDict [(''tool'', JStr ''delete_db''), (''args'', JDict [])],
        JDict [(''tool'', JStr ''backtest''),
               (''args'', JDict [(''symbol'', JStr ''ibm''), (''fast'', JInt 100),
                                 (''slow'', JInt 20)])],
        JDict [(''tool'', JStr ''analyze''), (''args'', JDict [(''symbol'', JStr ''ibm'')])]])])
   = Inr (JDict [(''steps'', JList [
        JDict [(''tool'', JStr ''backtest''),
               (''args'', JDict [(''symbol'', JStr ''IBM''), (''fast'', JInt 20),
                                 (''slow'', JInt 100), (''days'', JInt 3000)])],
        JDict [(''tool'', JStr ''analyze''),
               (''args'', JDict [(''symbol'', JStr ''IBM''), (''days'', JInt 365)])]])])
   \<and> subseq [
        JDict [(''tool'', JStr ''backtest''),
               (''args'', JDict [(''symbol'', JStr ''IBM''), (''fast'', JInt 20),
                                 (''slow'', JInt 100), (''days'', JInt 3000)])],
        JDict [(''tool'', JStr ''analyze''),
               (''args'', JDict [(''symbol'', JStr ''IBM''), (''days'', JInt 365)])]]
       (sanitized_forms B (take 6 [
        JDict [(''tool'', JStr ''backtest''),
               (''args'', JDict [(''symbol'', JStr ''ibm''), (''fast'', JInt 20),
                                 (''slow'', JInt 100), (''days'', JInt 5000)])],
        JDict [(''tool'', JStr ''delete_db''), (''args'', JDict [])],
        JDict [(''tool'', JStr ''backtest''),
               (''args'', JDict [(''symbol'', JStr ''ibm''), (''fast'', JInt 100),
                                 (''slow'', JInt 20)])],
        JDict [(''tool'', JStr ''analyze''), (''args'', JDict [(''symbol'', JStr ''ibm'')])]]))"
proof
  fix B
  let ?in = "[
        JDict [(''tool'', JStr ''backtest''),
               (''args'', JDict [(''symbol'', JStr ''ibm''), (''fast'', JInt 20),
                                 (''slow'', JInt 100), (''days'', JInt 5000)])],
        JDict [(''tool'', JStr ''delete_db''), (''args'', JDict [])],
        JDict [(''tool'', JStr ''backtest''),
               (''args'', JDict [(''symbol'', JStr ''ibm''), (''fast'', JInt 100),
                                 (''slow'', JInt 20)])],
        JDict [(''tool'', JStr ''analyze''), (''args'', JDict [(''symbol'', JStr ''ibm'')])]]"
  let ?out = "[
        JDict [(''tool'', JStr ''backtest''),
               (''args'', JDict [(''symbol'', JStr ''IBM''), (''fast'', JInt 20),
                                 (''slow'', JInt 100), (''days'', JInt 3000)])],
        JDict [(''tool'', JStr ''analyze''),
               (''args'', JDict [(''symbol'', JStr ''IBM''), (''days'', JInt 365)])]]"
  have run: "validate_plan B (JDict [(''steps'', JList ?in)]) = Inr (JDict [(''steps'', JList ?out)])"
    by (simp add: validator_defs)
  have raw: "raw_steps (JDict [(''steps'', JList ?in)]) = Inr ?in"
    by (simp add: raw_steps_def py_or_def py_truthy_def dict_get_def py_iter_def)
  have ps: "plan_steps (JDict [(''steps'', JList ?out)]) = ?out"
    by (simp add: plan_steps_def)
  from validate_plan_preserves_order[OF run] obtain steps where
    "raw_steps (JDict [(''steps'', JList ?in)]) = Inr steps"
    and "subseq (plan_steps (JDict [(''steps'', JList ?out)])) (sanitized_forms B (take 6 steps))"
    by blast
  with raw ps have "subseq ?out (sanitized_forms B (take 6 ?in))" by (simp only: sum.inject)
  with run show "validate_plan B (JDict [(''steps'', JList ?in)]) = Inr (JDict [(''steps'', JList ?out)])
      \<and> subseq ?out (sanitized_forms B (take 6 ?in))" by (rule conjI)
qed

subsection \<open>Plan validator: plans of the expected shape never raise\<close>

lemma is_number_py_int: "is_number v \<Longrightarrow> \<exists>i. py_int v = Inr i"
  by (cases v) (auto simp: is_number_def py_int_def split: pyfloat.splits)

lemma number_arg_py_int:
  "number_arg d k \<Longrightarrow> \<exists>i. py_int (dict_get_default d k (JInt n)) = Inr i"
  by (cases "map_of d k")
     (auto simp: number_arg_def dict_get_default_def py_int_def dest: is_number_py_int)

lemma list_arg_py_iter:
  assumes "list_arg P d k" and "list_all P dflt"
  shows "\<exists>xs. py_iter (py_or (dict_get d k) (JList dflt)) = Inr xs \<and> list_all P xs"
proof (cases "map_of d k")
  case None
  with assms(2) show ?thesis by (simp add: dict_get_def py_or_def py_truthy_def py_iter_def)
next
  case (Some v)
  with assms(1) have "v = JNull \<or> (\<exists>xs. v = JList xs \<and> list_all P xs)"
    by (cases v) (simp_all add: list_arg_def)
  with Some assms(2) show ?thesis
    by (auto simp: dict_get_def py_or_def py_truthy_def py_iter_def)
qed

lemma int_values_returns: "list_all is_number xs \<Longrightarrow> \<exists>is. int_values xs lo hi = Inr is"
proof (induction xs)
  case Nil
  then show ?case by simp
next
  case (Cons v vs)
  then obtain i rest where "py_int v = Inr i" "int_values vs lo hi = Inr rest"
    using is_number_py_int[of v] by auto
  then show ?case by (simp add: bind_err_def)
qed

lemma split_arg_py_float:
  "split_arg d \<Longrightarrow> \<exists>f. py_float B (dict_get_default d ''split'' (JFloat (Fin 0.7))) = Inr f"
proof (cases "map_of d ''split''")
  case None
  then show ?thesis by (simp add: dict_get_default_def py_float_def)
next
  case (Some v)
  assume "split_arg d"
  with Some show ?thesis
    by (cases v) (auto simp: split_arg_def dict_get_default_def py_float_def)
qed

lemma sanitize_screen_returns:
  assumes "args_shape d" shows "\<exists>r. sanitize_screen B d = Inr r"
proof -
  from assms have "list_arg (\<lambda>_. True) d ''symbols''" "number_arg d ''days''"
    by (simp_all add: args_shape_def)
  from list_arg_py_iter[OF this(1), of "[]"] number_arg_py_int[OF this(2), of 365]
  obtain xs i where "py_iter (py_or (dict_get d ''symbols'') (JList [])) = Inr xs"
    "py_int (dict_get_default d ''days'' (JInt 365)) = Inr i" by auto
  then show ?thesis by (simp add: sanitize_screen_def bind_err_def Let_def)
qed

lemma sanitize_analyze_returns:
  assumes "args_shape d" shows "\<exists>r. sanitize_analyze B d = Inr r"
proof -
  from assms have "number_arg d ''days''" by (simp add: args_shape_def)
  from number_arg_py_int[OF this, of 365]
  obtain i where "py_int (dict_get_default d ''days'' (JInt 365)) = Inr i" by auto
  then show ?thesis by (simp add: sanitize_analyze_def bind_err_def Let_def)
qed

lemma sanitize_backtest_returns:
  assumes "args_shape d" shows "\<exists>r. sanitize_backtest B d = Inr r"
proof -
  from assms have "number_arg d ''days''" "number_arg d ''fast''" "number_arg d ''slow''"
    by (simp_all add: args_shape_def)
  from number_arg_py_int[OF this(1), of 1200] number_arg_py_int[OF this(2), of 50]
    number_arg_py_int[OF this(3), of 200]
  obtain i j k where "py_int (dict_get_default d ''days'' (JInt 1200)) = Inr i"
    "py_int (dict_get_default d ''fast'' (JInt 50)) = Inr j"
    "py_int (dict_get_default d ''slow'' (JInt 200)) = Inr k" by auto
  then show ?thesis by (simp add: sanitize_backtest_def bind_err_def Let_def)
qed

lemma sanitize_optimize_returns:
  assumes "args_shape d" shows "\<exists>r. sanitize_optimize B d = Inr r"
proof -
  from assms have a: "number_arg d ''days''" "number_arg d ''top_k''" "split_arg d"
    "list_arg is_number d ''fast_values''" "list_arg is_number d ''slow_values''"
    by (simp_all add: args_shape_def)
  from number_arg_py_int[OF a(1), of 1200]
  obtain i where i: "py_int (dict_get_default d ''days'' (JInt 1200)) = Inr i" by auto
  from number_arg_py_int[OF a(2), of 5]
  obtain k where k: "py_int (dict_get_default d ''top_k'' (JInt 5)) = Inr k" by auto
  from split_arg_py_float[OF a(3), of B]
  obtain f where f: "py_float B (dict_get_default d ''split'' (JFloat (Fin 0.7))) = Inr f" by auto
  have "list_all is_number [JInt 10, JInt 20, JInt 50]" by (simp add: is_number_def)
  from list_arg_py_iter[OF a(4) this]
  obtain fvs where fvs: "py_iter (py_or (dict_get d ''fast_values'')
      (JList [JInt 10, JInt 20, JInt 50])) = Inr fvs" and fn: "list_all is_number fvs" by auto
  have "list_all is_number [JInt 100, JInt 150, JInt 200, JInt 250]" by (simp add: is_number_def)
  from list_arg_py_iter[OF a(5) this]
  obtain svs where svs: "py_iter (py_or (dict_get d ''slow_values'')
      (JList [JInt 100, JInt 150, JInt 200, JInt 250])) = Inr svs" and sn: "list_all is_number svs"
    by auto
  from int_values_returns[OF fn, of 2 200] obtain fi where fi: "int_values fvs 2 200 = Inr fi"
    by auto
  from int_values_returns[OF sn, of 5 400] obtain si where si: "int_values svs 5 400 = Inr si"
    by auto
  show ?thesis
    by (simp add: sanitize_optimize_def Let_def i k f fvs svs fi si bind_err_def)
qed

lemma sanitize_step_returns:
  assumes "step_shape s" shows "\<exists>r. sanitize_step B s = Inr r"
proof -
  from assms obtain sd where s: "s = JDict sd" by (cases s) (simp_all add: step_shape_def)
  from assms s have tool: "case map_of sd ''tool'' of None \<Rightarrow> True | Some JNull \<Rightarrow> True
      | Some (JStr _) \<Rightarrow> True | _ \<Rightarrow> False"
    and args: "case map_of sd ''args'' of None \<Rightarrow> True | Some JNull \<Rightarrow> True
      | Some (JDict d) \<Rightarrow> args_shape d | _ \<Rightarrow> False"
    by (simp_all add: step_shape_def)
  have "\<exists>ts. py_or (dict_get sd ''tool'') (JStr []) = JStr ts"
  proof (cases "map_of sd ''tool''")
    case None
    then show ?thesis by (simp add: py_or_def py_truthy_def dict_get_def)
  next
    case (Some v)
    with tool have "v = JNull \<or> (\<exists>x. v = JStr x)" by (cases v) simp_all
    with Some show ?thesis by (auto simp: py_or_def py_truthy_def dict_get_def)
  qed
  then obtain ts where ts: "py_or (dict_get sd ''tool'') (JStr []) = JStr ts" by blast
  have empty: "args_shape []"
    by (simp add: args_shape_def number_arg_def split_arg_def list_arg_def)
  have "\<exists>d. py_dict (py_or (dict_get sd ''args'') (JDict [])) = Inr d \<and> args_shape d"
  proof (cases "map_of sd ''args''")
    case None
    with empty show ?thesis by (simp add: py_or_def py_truthy_def dict_get_def py_dict_def)
  next
    case (Some v)
    with args have "v = JNull \<or> (\<exists>x. v = JDict x \<and> args_shape x)" by (cases v) simp_all
    with Some empty show ?thesis
      by (auto simp: py_or_def py_truthy_def dict_get_def py_dict_def)
  qed
  then obtain d where d: "py_dict (py_or (dict_get sd ''args'') (JDict [])) = Inr d"
    and sh: "args_shape d" by blast
  from sanitize_screen_returns[OF sh, of B] sanitize_analyze_returns[OF sh, of B]
    sanitize_optimize_returns[OF sh, of B] sanitize_backtest_returns[OF sh, of B]
  obtain r1 r2 r3 r4 where "sanitize_screen B d = Inr r1" "sanitize_analyze B d = Inr r2"
    "sanitize_optimize B d = Inr r3" "sanitize_backtest B d = Inr r4" by auto
  then show ?thesis
    by (simp add: sanitize_step_def s ts d Let_def bind_err_def)
qed

lemma validate_loop_returns:
  "\<forall>s\<in>set ss. \<exists>r. sanitize_step B s = Inr r \<Longrightarrow> \<exists>out. validate_loop B ss seen clean = Inr out"
proof (induction ss arbitrary: seen clean)
  case Nil
  then show ?case by simp
next
  case (Cons s ss)
  then obtain r where r: "sanitize_step B s = Inr r" by auto
  from Cons have IH: "\<And>seen clean. \<exists>out. validate_loop B ss seen clean = Inr out" by simp
  show ?case
  proof (cases r)
    case None
    with r IH show ?thesis by simp
  next
    case (Some st)
    obtain t args where "st = (t, args)" by (cases st)
    with r Some IH show ?thesis by (simp add: Let_def)
  qed
qed

text \<open>
  C5 (as amended). For every raw plan of the expected shape (an object whose steps are
  objects with string tools and object arguments in which the numeric arguments that
  are present are numbers), \<open>_validate_plan\<close> returns without raising, and what it
  returns is a cleaned plan: at most 6 steps, each an object with a whitelisted tool and
  an argument object, possibly no step at all. Outside that shape it can raise: a
  non-numeric \<open>days\<close> makes \<open>int\<close> raise ValueError.
\<close>

theorem validate_plan_returns_on_shaped_plans:
  assumes "plan_shape plan"
  shows "\<exists>out. validate_plan B plan = Inr out
           \<and> length (plan_steps out) \<le> 6
           \<and> (\<forall>s\<in>set (plan_steps out). \<exists>t args.
                  s = JDict [(''tool'', JStr t), (''args'', JDict args)]
                  \<and> t \<in> ALLOWED_TOOLS)"
proof -
  from assms obtain pd where pd: "plan = JDict pd" by (cases plan) (simp_all add: plan_shape_def)
  have "\<exists>steps. raw_steps plan = Inr steps \<and> list_all step_shape (take MAX_PLAN_STEPS steps)"
  proof (cases "map_of pd ''steps''")
    case None
    then show ?thesis
      by (simp add: pd raw_steps_def py_or_def py_truthy_def dict_get_def py_iter_def)
  next
    case (Some v)
    with assms pd have "v = JNull
        \<or> (\<exists>ss. v = JList ss \<and> list_all step_shape (take MAX_PLAN_STEPS ss))"
      by (cases v) (simp_all add: plan_shape_def)
    with Some show ?thesis
      by (auto simp: pd raw_steps_def py_or_def py_truthy_def dict_get_def py_iter_def)
  qed
  then obtain steps where rs: "raw_steps plan = Inr steps"
    and sh: "list_all step_shape (take MAX_PLAN_STEPS steps)" by blast
  from sh have "\<forall>s\<in>set (take MAX_PLAN_STEPS steps). \<exists>r. sanitize_step B s = Inr r"
    using sanitize_step_returns by (auto simp: list_all_iff)
  from validate_loop_returns[OF this, of "[]" "[]"]
  obtain clean where vl: "validate_loop B (take MAX_PLAN_STEPS steps) [] [] = Inr clean" by blast
  let ?out = "JDict (AList.update ''steps'' (JList (map step_json clean)) pd)"
  have run: "validate_plan B plan = Inr ?out"
    using rs vl by (simp add: validate_plan_def bind_err_def pd)
  have ps: "plan_steps ?out = map step_json clean"
    by (simp add: plan_steps_def update_conv')
  from validate_loop_subseq[OF vl]
  have sub: "subseq clean (kept_steps B (take MAX_PLAN_STEPS steps))" by simp
  have "length clean \<le> length (kept_steps B (take MAX_PLAN_STEPS steps))"
    using sub by (rule list_emb_length)
  also have "\<dots> \<le> length (take MAX_PLAN_STEPS steps)" by (rule length_kept_steps)
  also have "\<dots> \<le> 6" by (simp add: MAX_PLAN_STEPS_def)
  finally have len: "length (plan_steps ?out) \<le> 6" by (simp add: ps)
  have struct: "\<forall>s\<in>set (plan_steps ?out). \<exists>t args.
                  s = JDict [(''tool'', JStr t), (''args'', JDict args)]
                  \<and> t \<in> ALLOWED_TOOLS"
  proof
    fix s assume "s \<in> set (plan_steps ?out)"
    then obtain st where st: "st \<in> set clean" and s: "s = step_json st" by (auto simp: ps)
    from sub st have "st \<in> set (kept_steps B (take MAX_PLAN_STEPS steps))" by (rule subseq_mem)
    from kept_steps_mem[OF this]
    obtain raw where "sanitize_step B raw = Inr (Some (fst st, snd st))" by auto
    from sanitize_step_Some_props(1)[OF this] have "fst st \<in> ALLOWED_TOOLS" .
    then show "\<exists>t args. s = JDict [(''tool'', JStr t), (''args'', JDict args)]
                  \<and> t \<in> ALLOWED_TOOLS"
      by (auto simp: s step_json_def)
  qed
  from run len struct show ?thesis by blast
qed

text \<open>A garbage plan of the expected shape: an unknown tool, a step without a tool
  and an analyze step with an empty symbol; nothing is left.\<close>

theorem validate_plan_returns_on_shaped_plans_witness:
  "\<forall>B. validate_plan B
     (JDict [(''steps'', JList [
        JDict [(''tool'', JStr ''delete_db'')],
        JDict [(''tool'', JNull), (''args'', JNull)],
        JDict [(''tool'', JStr ''analyze''),
               (''args'', JDict [(''symbol'', JStr []), (''days'', JFloat (Fin 12.5))])]])])
   = Inr (JDict [(''steps'', JList [])])"
proof
  fix B
  let ?plan = "JDict [(''steps'', JList [
        JDict [(''tool'', JStr ''delete_db'')],
        JDict [(''tool'', JNull), (''args'', JNull)],
        JDict [(''tool'', JStr ''analyze''),
               (''args'', JDict [(''symbol'', JStr []), (''days'', JFloat (Fin 12.5))])]])]"
  have "plan_shape ?plan"
    by (simp add: plan_shape_def MAX_PLAN_STEPS_def step_shape_def args_shape_def
        number_arg_def split_arg_def list_arg_def is_number_def)
  from validate_plan_returns_on_shaped_plans[OF this, of B]
  obtain out where "validate_plan B ?plan = Inr out" by blast
  moreover have "validate_plan B ?plan = Inr (JDict [(''steps'', JList [])])"
    by (simp add: validator_defs int_of_float_def)
  ultimately show "validate_plan B ?plan = Inr (JDict [(''steps'', JList [])])" by simp
qed

text \<open>
  The claim as stated fails on a non-numeric \<open>days\<close>: \<open>int("abc")\<close> raises ValueError,
  which nothing in \<open>_validate_plan\<close> catches.
\<close>

theorem validate_plan_raises_on_garbage_days:
  "\<forall>B. validate_plan B
     (JDict [(''steps'', JList [
        JDict [(''tool'', JStr ''screen''),
               (''args'', JDict [(''days'', JStr ''abc'')])]])])
   = Inl ValueError"
  by (simp add: validator_defs int_of_str_def is_digit_def)

end
